theory Spec2Isabelle
  imports Main
begin

section \<open>The data of \<open>ros2graph/verb/dot.py\<close>\<close>

text \<open>
  The verb \<open>DotVerb.main\<close> reads a discovery snapshot through the functions of
  \<open>ros2graph.api\<close>, folds the channel records of every node into a dictionary of edges
  keyed by channel name, and drives a \<open>DotWriter\<close>. Python strings are \<open>string\<close>,
  Python lists are lists, the insertion-ordered dictionary \<open>edges\<close> is an association
  list whose keys are kept distinct by \<open>setdefault\<close>, and exceptions are values of
  \<open>py_error\<close>.
\<close>

datatype py_error = IndexError | KeyError

text \<open>An element of the list \<open>get_node_names\<close> returns: the attributes \<open>main\<close> reads
  (\<open>n.namespace\<close>, \<open>n.name\<close>, \<open>n.full_name\<close>, \<open>n.id\<close>).\<close>

record node_name =
  namespace :: string
  name :: string
  full_name :: string
  node_id :: string

text \<open>A channel record as the six \<open>get_*_info\<close> queries return it: \<open>main\<close> reads
  \<open>.name\<close> and \<open>.types\<close>.\<close>

record topic_info =
  topic_name :: string
  types :: "string list"

text \<open>\<open>Edge = namedtuple('Edge', ('topic', 'src', 'dst', 'id', 'colour'))\<close>.\<close>

record edge =
  topic :: topic_info
  src :: "string list"
  dst :: "string list"
  edge_id :: string
  colour :: string

text \<open>The parsed command line: \<open>args.all\<close>, \<open>args.types\<close>, \<open>args.unconnected\<close>,
  \<open>args.select\<close>.\<close>

record args =
  arg_all :: bool
  arg_types :: bool
  arg_unconnected :: bool
  arg_select :: "string list"

text \<open>The discovery collaborator (\<open>ros2graph.api\<close>, outside the verb): the node list for
  a value of \<open>include_hidden_nodes\<close>, and six record streams, each for a
  \<open>remote_node_name\<close> and a value of \<open>include_hidden\<close>. They are inputs of the pass.\<close>

record discovery =
  get_node_names :: "bool \<Rightarrow> node_name list"
  get_subscriber_info :: "string \<Rightarrow> bool \<Rightarrow> topic_info list"
  get_publisher_info :: "string \<Rightarrow> bool \<Rightarrow> topic_info list"
  get_service_client_info :: "string \<Rightarrow> bool \<Rightarrow> topic_info list"
  get_service_server_info :: "string \<Rightarrow> bool \<Rightarrow> topic_info list"
  get_action_client_info :: "string \<Rightarrow> bool \<Rightarrow> topic_info list"
  get_action_server_info :: "string \<Rightarrow> bool \<Rightarrow> topic_info list"

text \<open>Modelled from the spec: the class \<open>DotWriter\<close> of \<open>ros2graph.api\<close> is not among the
  sources. The document is "an ordered sequence of writes" (spec 4.5, and "write-only,
  append-style construction" in spec 3), so the writer is the list of the calls made on
  it, each with the arguments \<open>main\<close> passes: \<open>begin_graph(rankdir, concentrate)\<close>,
  \<open>begin_subgraph(id, label)\<close>, \<open>write(text)\<close>, \<open>end_subgraph()\<close>,
  \<open>node(id, label, style)\<close> with an absent keyword as \<open>None\<close>,
  \<open>edge(src, dst, label, fontcolor, color, penwidth)\<close> and \<open>end_graph()\<close>.\<close>

datatype dot_call =
  Begin_graph string bool
  | Begin_subgraph string string
  | Write string
  | End_subgraph
  | Node_call string "string option" "string option"
  | Edge_call string string string string string nat
  | End_graph

text \<open>Which list of an edge a record stream appends to.\<close>

datatype side = Src | Dst

section \<open>Strings\<close>

text \<open>Python's \<open>str\<close> of a non-negative \<open>int\<close>, as the f-strings format \<open>src_cnt\<close>.\<close>

definition digit_char :: "nat \<Rightarrow> char" where
  "digit_char d = ''0123456789'' ! d"

function str_nat :: "nat \<Rightarrow> string" where
  "str_nat n = (if n < 10 then [digit_char n] else str_nat (n div 10) @ [digit_char (n mod 10)])"
  by pat_completeness auto
termination
  by (relation "measure (\<lambda>n. n)") auto

declare str_nat.simps [simp del]

text \<open>\<open>name.split(sep)\<close> for a one-character separator: the pieces between the
  separators, never an empty list.\<close>

fun split_sep :: "char \<Rightarrow> string \<Rightarrow> string list" where
  "split_sep c [] = [[]]"
| "split_sep c (x # xs) =
     (if x = c then [] # split_sep c xs
      else (case split_sep c xs of w # ws \<Rightarrow> (x # w) # ws | [] \<Rightarrow> [[x]]))"

section \<open>The ignore filter\<close>

definition ignore_list :: "string set" where
  "ignore_list = {''/rosout'', ''/parameter_events'', ''describe_parameters'',
     ''get_parameter_types'', ''list_parameters'', ''set_parameters'', ''get_parameters'',
     ''set_parameters_atomically''}"

text \<open>\<open>DotVerb.ignore\<close>: \<open>name.split('/')[-1]\<close> is the last piece, which exists
  (\<open>split_sep\<close> never returns the empty list).\<close>

definition ignore :: "string \<Rightarrow> bool" where
  "ignore nm = (if nm \<in> ignore_list \<or> last (split_sep CHR ''/'' nm) \<in> ignore_list
     then True else False)"

section \<open>The identifier allocator\<close>

text \<open>Modelled from the spec: \<open>get_id\<close> of \<open>ros2graph.api\<close> is not among the sources.
  Spec 4.1: the identifier is "formed by concatenating the prefix with a strictly
  increasing counter value". The process-wide counter is threaded through the pass: a
  call returns the identifier and the counter for the next call.\<close>

definition get_id :: "string \<Rightarrow> nat \<Rightarrow> string \<times> nat" where
  "get_id prefix c = (prefix @ str_nat c, Suc c)"

section \<open>Namespace grouping\<close>

text \<open>\<open>namespaces = {n.namespace for n in node_names}\<close> is a Python set: what it
  holds is fixed, the order in which the two \<open>for ns in namespaces\<close> loops visit it is
  the interpreter's. The order is a parameter of the pass: a function from the inserted
  elements to the list the loops visit, which holds each element of the set once.\<close>

definition set_iteration :: "(string list \<Rightarrow> string list) \<Rightarrow> bool" where
  "set_iteration it = (\<forall>xs. distinct (it xs) \<and> set (it xs) = set xs)"

text \<open>The loop that fills the dictionary \<open>grouped_node\<close>.\<close>

definition grouped_node :: "node_name list \<Rightarrow> string list \<Rightarrow> (string \<rightharpoonup> node_name list)" where
  "grouped_node node_names namespaces =
     foldl (\<lambda>g ns. g(ns \<mapsto> filter (\<lambda>n. ns = namespace n) node_names)) Map.empty namespaces"

section \<open>The legend\<close>

definition legend_key :: "string \<Rightarrow> string" where
  \<open>legend_key key_id =
     key_id @ '' [shape=plaintext, label=<<table border="0" cellpadding="2" cellspacing="0" cellborder="0">''
     @ [CHR 0x0A, CHR 0x09] @ ''<tr><td align="right" port="i1">Topics</td></tr>''
     @ [CHR 0x0A, CHR 0x09] @ ''<tr><td align="right" port="i2">Services</td></tr>''
     @ [CHR 0x0A, CHR 0x09] @ ''<tr><td align="right" port="i3">Actions</td></tr>''
     @ [CHR 0x0A, CHR 0x09] @ ''</table>>]'' @ [CHR 0x0A]\<close>

definition legend_key2 :: "string \<Rightarrow> string" where
  \<open>legend_key2 key2_id =
     key2_id @ '' [shape=plaintext, label=<<table border="0" cellpadding="2" cellspacing="0" cellborder="0">''
     @ [CHR 0x0A, CHR 0x09] @ ''<tr><td port="i1">&nbsp;</td></tr>''
     @ [CHR 0x0A, CHR 0x09] @ ''<tr><td port="i2">&nbsp;</td></tr>''
     @ [CHR 0x0A, CHR 0x09] @ ''<tr><td port="i3">&nbsp;</td></tr>''
     @ [CHR 0x0A, CHR 0x09] @ ''</table>>]'' @ [CHR 0x0A]\<close>

text \<open>One row of the legend: \<open>f'{key_id}:i1:e -> {key2_id}:i1:w [color=blue]\n'\<close>.\<close>

definition legend_row :: "string \<Rightarrow> string \<Rightarrow> string \<Rightarrow> string \<Rightarrow> string" where
  "legend_row key_id key2_id port col =
     key_id @ '':'' @ port @ '':e -> '' @ key2_id @ '':'' @ port @ '':w [color='' @ col @ '']''
     @ [CHR 0x0A]"

text \<open>Lines 66 to 84: the legend cluster, written before any input is looked at.\<close>

definition write_legend :: "dot_call list \<Rightarrow> nat \<Rightarrow> dot_call list \<times> nat" where
  "write_legend dw c =
     (let (cluster, c1) = get_id ''cluster_'' c;
          dw1 = dw @ [Begin_subgraph cluster ''legend''];
          (key_id, c2) = get_id ''key_'' c1;
          (key2_id, c3) = get_id ''key2_'' c2;
          dw2 = dw1 @ [Write (legend_key key_id)];
          dw3 = dw2 @ [Write (legend_key2 key2_id)];
          dw4 = dw3 @ [Write (legend_row key_id key2_id ''i1'' ''blue'')];
          dw5 = dw4 @ [Write (legend_row key_id key2_id ''i2'' ''orange'')];
          dw6 = dw5 @ [Write (legend_row key_id key2_id ''i3'' ''olive'')]
      in (dw6 @ [End_subgraph], c3))"

section \<open>Writing the nodes\<close>

text \<open>The body of \<open>for n_node in grouped_node[ns]\<close>: \<open>dw.node(n_node.id, label=n_node.name)\<close>.\<close>

definition node_entry :: "node_name \<Rightarrow> dot_call" where
  "node_entry n = Node_call (node_id n) (Some (name n)) None"

text \<open>Lines 87 to 93. \<open>grouped_node[ns]\<close> raises \<open>KeyError\<close> on a missing key.\<close>

fun write_nodes ::
  "(string \<rightharpoonup> node_name list) \<Rightarrow> string list \<Rightarrow> dot_call list \<Rightarrow> nat
     \<Rightarrow> py_error + (dot_call list \<times> nat)" where
  "write_nodes g [] dw c = Inr (dw, c)"
| "write_nodes g (ns # nss) dw c =
     (let (dw1, c1) =
            (if ns \<noteq> [] then
               (let (cluster, c') = get_id ''cluster_'' c
                in (dw @ [Begin_subgraph cluster ns], c'))
             else (dw, c))
      in case g ns of
           None \<Rightarrow> Inl KeyError
         | Some members \<Rightarrow>
             (let dw2 = dw1 @ map node_entry members;
                  dw3 = (if ns \<noteq> [] then dw2 @ [End_subgraph] else dw2)
              in write_nodes g nss dw3 c1))"

section \<open>Edge aggregation\<close>

text \<open>\<open>edges.setdefault(key, default)\<close>: the dictionary keeps an entry it has, and
  gets the default at its end otherwise.\<close>

definition setdefault :: "(string \<times> edge) list \<Rightarrow> string \<Rightarrow> edge \<Rightarrow> (string \<times> edge) list" where
  "setdefault es k v = (if k \<in> fst ` set es then es else es @ [(k, v)])"

text \<open>\<open>edges[key].src.append(x)\<close> and \<open>edges[key].dst.append(x)\<close>, which \<open>main\<close>
  runs right after \<open>setdefault\<close> on the same key, so that the key is there.\<close>

definition append_side :: "side \<Rightarrow> string \<Rightarrow> edge \<Rightarrow> edge" where
  "append_side sd x e = (case sd of Src \<Rightarrow> e\<lparr>src := src e @ [x]\<rparr> | Dst \<Rightarrow> e\<lparr>dst := dst e @ [x]\<rparr>)"

definition append_at :: "side \<Rightarrow> string \<Rightarrow> string \<Rightarrow> (string \<times> edge) list \<Rightarrow> (string \<times> edge) list" where
  "append_at sd k x es = map (\<lambda>(k', e). if k' = k then (k', append_side sd x e) else (k', e)) es"

text \<open>The body shared by the six record loops (lines 102 to 189), which differ in the
  colour literal and in the list they append to. The \<open>Edge(...)\<close> argument of
  \<open>setdefault\<close> is evaluated before the call, so every record that is not ignored takes
  an identifier from the allocator, whether or not the edge is new.\<close>

definition add_record ::
  "string \<Rightarrow> side \<Rightarrow> string \<Rightarrow> (string \<times> edge) list \<times> nat \<Rightarrow> topic_info
     \<Rightarrow> (string \<times> edge) list \<times> nat" where
  "add_record col sd nid st r =
     (let (es, c) = st in
      if ignore (topic_name r) then (es, c)
      else
        (let (i, c') = get_id ''edge_'' c;
             es1 = setdefault es (topic_name r)
                     \<lparr>topic = r, src = [], dst = [], edge_id = i, colour = col\<rparr>
         in (append_at sd (topic_name r) nid es1, c')))"

definition add_records ::
  "string \<Rightarrow> side \<Rightarrow> string \<Rightarrow> topic_info list \<Rightarrow> (string \<times> edge) list \<times> nat
     \<Rightarrow> (string \<times> edge) list \<times> nat" where
  "add_records col sd nid rs st = foldl (add_record col sd nid) st rs"

text \<open>The body of \<open>for node_name in node_names\<close> (lines 98 to 189).\<close>

definition node_edges ::
  "discovery \<Rightarrow> args \<Rightarrow> (string \<times> edge) list \<times> nat \<Rightarrow> node_name
     \<Rightarrow> (string \<times> edge) list \<times> nat" where
  "node_edges d a st n =
     (let st1 =
            (if ''topics'' \<in> set (arg_select a) then
               (let subscribers = get_subscriber_info d (full_name n) (arg_all a);
                    s1 = add_records ''blue'' Dst (node_id n) subscribers st;
                    publishers = get_publisher_info d (full_name n) (arg_all a)
                in add_records ''blue'' Src (node_id n) publishers s1)
             else st);
          st2 =
            (if ''services'' \<in> set (arg_select a) then
               (let service_clients = get_service_client_info d (full_name n) (arg_all a);
                    s1 = add_records ''orange'' Src (node_id n) service_clients st1;
                    service_servers = get_service_server_info d (full_name n) (arg_all a)
                in add_records ''orange'' Dst (node_id n) service_servers s1)
             else st1)
      in if ''actions'' \<in> set (arg_select a) then
           (let action_clients = get_action_client_info d (full_name n) (arg_all a);
                s1 = add_records ''olive'' Src (node_id n) action_clients st2;
                action_servers = get_action_server_info d (full_name n) (arg_all a)
            in add_records ''olive'' Dst (node_id n) action_servers s1)
         else st2)"

text \<open>Lines 96 to 189: \<open>edges = dict()\<close> and the loop over the nodes.\<close>

definition aggregate ::
  "discovery \<Rightarrow> args \<Rightarrow> node_name list \<Rightarrow> nat \<Rightarrow> (string \<times> edge) list \<times> nat" where
  "aggregate d a node_names c = foldl (node_edges d a) ([], c) node_names"

section \<open>Unconnected edges and connections\<close>

text \<open>Lines 192 to 201: the placeholder nodes of one edge.\<close>

definition resolve_edge ::
  "args \<Rightarrow> edge \<Rightarrow> dot_call list \<Rightarrow> nat \<Rightarrow> edge \<times> dot_call list \<times> nat" where
  "resolve_edge a e dw c =
     (let (e1, dw1, c1) =
            (if arg_unconnected a \<and> src e = [] then
               (let (blank, c') = get_id ''blank_r_'' c
                in (e\<lparr>src := src e @ [blank]\<rparr>, dw @ [Node_call blank None (Some ''invis'')], c'))
             else (e, dw, c))
      in if arg_unconnected a \<and> dst e1 = [] then
           (let (blank, c') = get_id ''blank_w_'' c1
            in (e1\<lparr>dst := dst e1 @ [blank]\<rparr>, dw1 @ [Node_call blank None (Some ''invis'')], c'))
         else (e1, dw1, c1))"

text \<open>Lines 205 to 210: the label of a connection. \<open>edge.topic.types[0]\<close> raises
  \<open>IndexError\<close> on an empty list.\<close>

definition edge_label :: "args \<Rightarrow> edge \<Rightarrow> py_error + string" where
  "edge_label a e =
     (let label = topic_name (topic e);
          src_cnt = length (src e);
          label1 = (if src_cnt > 1 then label @ ''('' @ str_nat src_cnt @ '')'' else label)
      in if arg_types a then
           (case types (topic e) of
              [] \<Rightarrow> Inl IndexError
            | t # _ \<Rightarrow> Inr (label1 @ '' ['' @ t @ '']''))
         else Inr label1)"

text \<open>Lines 204 to 211: \<open>for dst in edge.dst\<close>.\<close>

fun render_dsts ::
  "args \<Rightarrow> edge \<Rightarrow> string \<Rightarrow> string list \<Rightarrow> dot_call list \<Rightarrow> py_error + dot_call list" where
  "render_dsts a e s [] dw = Inr dw"
| "render_dsts a e s (t # ts) dw =
     (case edge_label a e of
        Inl err \<Rightarrow> Inl err
      | Inr label \<Rightarrow>
          render_dsts a e s ts
            (dw @ [Edge_call s t label (colour e) (colour e) (length (src e))]))"

text \<open>Lines 203 to 211: \<open>for src in edge.src\<close>.\<close>

fun render_srcs ::
  "args \<Rightarrow> edge \<Rightarrow> string list \<Rightarrow> dot_call list \<Rightarrow> py_error + dot_call list" where
  "render_srcs a e [] dw = Inr dw"
| "render_srcs a e (s # ss) dw =
     (case render_dsts a e s (dst e) dw of
        Inl err \<Rightarrow> Inl err
      | Inr dw' \<Rightarrow> render_srcs a e ss dw')"

text \<open>The connections of one edge, as the serializer writes them.\<close>

definition render_edge :: "args \<Rightarrow> edge \<Rightarrow> dot_call list \<Rightarrow> py_error + dot_call list" where
  "render_edge a e dw = render_srcs a e (src e) dw"

text \<open>Lines 191 to 211: \<open>for edge in edges.values()\<close>, in insertion order.\<close>

fun write_edges ::
  "args \<Rightarrow> edge list \<Rightarrow> dot_call list \<Rightarrow> nat \<Rightarrow> py_error + (dot_call list \<times> nat)" where
  "write_edges a [] dw c = Inr (dw, c)"
| "write_edges a (e # es) dw c =
     (let (e', dw1, c1) = resolve_edge a e dw c
      in case render_edge a e' dw1 of
           Inl err \<Rightarrow> Inl err
         | Inr dw2 \<Rightarrow> write_edges a es dw2 c1)"

section \<open>The pass\<close>

text \<open>\<open>DotVerb.main\<close>, from the allocator's counter at its start: the calls made on the
  writer and the counter at its end, or the exception that ends it.\<close>

definition main ::
  "(string list \<Rightarrow> string list) \<Rightarrow> discovery \<Rightarrow> args \<Rightarrow> nat
     \<Rightarrow> py_error + (dot_call list \<times> nat)" where
  "main it d a c =
     (let node_names = get_node_names d (arg_all a);
          namespaces = it (map namespace node_names);
          grouped = grouped_node node_names namespaces;
          dw = [Begin_graph ''LR'' True];
          (dw1, c1) = write_legend dw c
      in case write_nodes grouped namespaces dw1 c1 of
           Inl err \<Rightarrow> Inl err
         | Inr (dw2, c2) \<Rightarrow>
             (let (edges, c3) = aggregate d a node_names c2
              in case write_edges a (map snd edges) dw2 c3 of
                   Inl err \<Rightarrow> Inl err
                 | Inr (dw3, c4) \<Rightarrow> Inr (dw3 @ [End_graph], c4)))"

section \<open>The record streams, by role\<close>

text \<open>The six queries of the loop body, named: the three outgoing roles (publisher, service
  client, action client) and the three incoming ones (subscriber, service server, action
  server).\<close>

datatype role =
  Subscriber | Publisher | Service_client | Service_server | Action_client | Action_server

fun outgoing :: "role \<Rightarrow> bool" where
  "outgoing Publisher = True"
| "outgoing Service_client = True"
| "outgoing Action_client = True"
| "outgoing Subscriber = False"
| "outgoing Service_server = False"
| "outgoing Action_server = False"

fun incoming :: "role \<Rightarrow> bool" where
  "incoming Subscriber = True"
| "incoming Service_server = True"
| "incoming Action_server = True"
| "incoming Publisher = False"
| "incoming Service_client = False"
| "incoming Action_client = False"

text \<open>What \<open>main\<close> does with a record of each role: the list it appends to and the colour
  literal of the \<open>Edge\<close> it passes to \<open>setdefault\<close>.\<close>

fun role_side :: "role \<Rightarrow> side" where
  "role_side Subscriber = Dst"
| "role_side Publisher = Src"
| "role_side Service_client = Src"
| "role_side Service_server = Dst"
| "role_side Action_client = Src"
| "role_side Action_server = Dst"

fun category_colour :: "role \<Rightarrow> string" where
  "category_colour Subscriber = ''blue''"
| "category_colour Publisher = ''blue''"
| "category_colour Service_client = ''orange''"
| "category_colour Service_server = ''orange''"
| "category_colour Action_client = ''olive''"
| "category_colour Action_server = ''olive''"

text \<open>The records the collaborator supplies for one node, in the order the loop body reads
  them, each with the node's identifier and its role; a category that is not in
  \<open>args.select\<close> is not queried. \<open>records\<close> is the same for the node list of a pass, and
  \<open>add_tagged\<close> is the loop body on such a record.\<close>

definition tag :: "node_name \<Rightarrow> role \<Rightarrow> topic_info list \<Rightarrow> (string \<times> role \<times> topic_info) list" where
  "tag n ro rs = map (\<lambda>r. (node_id n, ro, r)) rs"

definition supplied :: "discovery \<Rightarrow> args \<Rightarrow> node_name \<Rightarrow> (string \<times> role \<times> topic_info) list" where
  "supplied d a n =
     (if ''topics'' \<in> set (arg_select a) then
        tag n Subscriber (get_subscriber_info d (full_name n) (arg_all a))
        @ tag n Publisher (get_publisher_info d (full_name n) (arg_all a))
      else [])
     @ (if ''services'' \<in> set (arg_select a) then
          tag n Service_client (get_service_client_info d (full_name n) (arg_all a))
          @ tag n Service_server (get_service_server_info d (full_name n) (arg_all a))
        else [])
     @ (if ''actions'' \<in> set (arg_select a) then
          tag n Action_client (get_action_client_info d (full_name n) (arg_all a))
          @ tag n Action_server (get_action_server_info d (full_name n) (arg_all a))
        else [])"

definition records :: "discovery \<Rightarrow> args \<Rightarrow> node_name list \<Rightarrow> (string \<times> role \<times> topic_info) list" where
  "records d a node_names = concat (map (supplied d a) node_names)"

definition add_tagged ::
  "(string \<times> edge) list \<times> nat \<Rightarrow> string \<times> role \<times> topic_info \<Rightarrow> (string \<times> edge) list \<times> nat" where
  "add_tagged st x = (case x of (nid, ro, r) \<Rightarrow> add_record (category_colour ro) (role_side ro) nid st r)"

text \<open>A record counts when the ignore filter lets it through; \<open>named k\<close> and \<open>on_side sd\<close>
  select by channel name and by the list appended to. \<open>side_ids\<close> reads one list of the
  edge stored under a name (the empty list when there is none), and \<open>seed\<close> is what an edge
  gets at its creation.\<close>

definition counted :: "string \<times> role \<times> topic_info \<Rightarrow> bool" where
  "counted x = (case x of (nid, ro, r) \<Rightarrow> \<not> ignore (topic_name r))"

definition named :: "string \<Rightarrow> string \<times> role \<times> topic_info \<Rightarrow> bool" where
  "named k x = (case x of (nid, ro, r) \<Rightarrow> topic_name r = k)"

definition on_side :: "side \<Rightarrow> string \<times> role \<times> topic_info \<Rightarrow> bool" where
  "on_side sd x = (case x of (nid, ro, r) \<Rightarrow> role_side ro = sd)"

definition side_ids :: "side \<Rightarrow> (string \<times> edge) list \<Rightarrow> string \<Rightarrow> string list" where
  "side_ids sd es k =
     (case map_of es k of None \<Rightarrow> [] | Some e \<Rightarrow> (case sd of Src \<Rightarrow> src e | Dst \<Rightarrow> dst e))"

definition seed :: "edge \<Rightarrow> topic_info \<times> string \<times> string" where
  "seed e = (topic e, edge_id e, colour e)"

text \<open>The records of a pass that are not ignored, carry the name \<open>k\<close> and have an outgoing
  role, or an incoming one.\<close>

definition outgoing_records ::
  "discovery \<Rightarrow> args \<Rightarrow> node_name list \<Rightarrow> string \<Rightarrow> (string \<times> role \<times> topic_info) list" where
  "outgoing_records d a node_names k =
     filter (\<lambda>(nid, ro, r). topic_name r = k \<and> \<not> ignore (topic_name r) \<and> outgoing ro)
       (records d a node_names)"

definition incoming_records ::
  "discovery \<Rightarrow> args \<Rightarrow> node_name list \<Rightarrow> string \<Rightarrow> (string \<times> role \<times> topic_info) list" where
  "incoming_records d a node_names k =
     filter (\<lambda>(nid, ro, r). topic_name r = k \<and> \<not> ignore (topic_name r) \<and> incoming ro)
       (records d a node_names)"

section \<open>The document, as the specification words it\<close>

text \<open>The label and the connections of an edge: one connection for every pair of a source
  and a destination, labelled with the channel name, the source count in parentheses when
  there is more than one source, and the first type in brackets when types are shown.\<close>

definition connection_label :: "args \<Rightarrow> edge \<Rightarrow> string" where
  "connection_label a e =
     topic_name (topic e)
     @ (if length (src e) > 1 then ''('' @ str_nat (length (src e)) @ '')'' else [])
     @ (if arg_types a then '' ['' @ hd (types (topic e)) @ '']'' else [])"

definition connections :: "args \<Rightarrow> edge \<Rightarrow> dot_call list" where
  "connections a e =
     map (\<lambda>(s, t). Edge_call s t (connection_label a e) (colour e) (colour e) (length (src e)))
       (List.product (src e) (dst e))"

text \<open>The calls of the legend for a counter value, and the calls for the namespaces: a
  non-empty namespace is a labelled cluster around the entries of its members, the root
  namespace is the entries alone. \<open>opens_cluster ns\<close> recognises the call that opens the
  cluster labelled \<open>ns\<close>.\<close>

definition legend_calls :: "nat \<Rightarrow> dot_call list" where
  "legend_calls c =
     [Begin_subgraph (''cluster_'' @ str_nat c) ''legend'',
      Write (legend_key (''key_'' @ str_nat (c + 1))),
      Write (legend_key2 (''key2_'' @ str_nat (c + 2))),
      Write (legend_row (''key_'' @ str_nat (c + 1)) (''key2_'' @ str_nat (c + 2)) ''i1'' ''blue''),
      Write (legend_row (''key_'' @ str_nat (c + 1)) (''key2_'' @ str_nat (c + 2)) ''i2'' ''orange''),
      Write (legend_row (''key_'' @ str_nat (c + 1)) (''key2_'' @ str_nat (c + 2)) ''i3'' ''olive''),
      End_subgraph]"

definition cluster_block :: "nat \<Rightarrow> string \<Rightarrow> node_name list \<Rightarrow> dot_call list" where
  "cluster_block c ns members =
     (if ns \<noteq> [] then
        [Begin_subgraph (''cluster_'' @ str_nat c) ns] @ map node_entry members @ [End_subgraph]
      else map node_entry members)"

fun namespace_blocks :: "nat \<Rightarrow> node_name list \<Rightarrow> string list \<Rightarrow> dot_call list" where
  "namespace_blocks c nodes [] = []"
| "namespace_blocks c nodes (ns # nss) =
     cluster_block c ns (filter (\<lambda>n. namespace n = ns) nodes)
     @ namespace_blocks (if ns \<noteq> [] then Suc c else c) nodes nss"

fun opens_cluster :: "string \<Rightarrow> dot_call \<Rightarrow> bool" where
  "opens_cluster ns (Begin_subgraph i l) = (l = ns)"
| "opens_cluster ns _ = False"

section \<open>Documents that differ in allocated identifiers only\<close>










section \<open>An example snapshot\<close>

text \<open>Three nodes, two in the namespace \<open>/a\<close> and one in the root namespace. \<open>/a/b\<close> and
  \<open>/a/c\<close> publish \<open>/chatter\<close>, \<open>/d\<close> subscribes to it; \<open>/a/b\<close> publishes \<open>/lonely\<close>, which
  \<open>/d\<close> also offers as an action server; \<open>/d\<close> subscribes to \<open>/rosout\<close> and every node
  serves \<open>get_parameters\<close>. In \<open>untyped\<close> the records of \<open>/chatter\<close> declare no type.\<close>

definition demo_nodes :: "node_name list" where
  "demo_nodes =
     [\<lparr>namespace = ''/a'', name = ''b'', full_name = ''/a/b'', node_id = ''n1''\<rparr>,
      \<lparr>namespace = ''/a'', name = ''c'', full_name = ''/a/c'', node_id = ''n2''\<rparr>,
      \<lparr>namespace = [], name = ''d'', full_name = ''/d'', node_id = ''n3''\<rparr>]"

definition chatter :: topic_info where
  "chatter = \<lparr>topic_name = ''/chatter'', types = [''std_msgs/String'', ''other/Type'']\<rparr>"

definition lonely :: topic_info where
  "lonely = \<lparr>topic_name = ''/lonely'', types = [''std_msgs/Empty'']\<rparr>"

definition demo :: discovery where
  "demo =
     \<lparr>get_node_names = (\<lambda>hidden. demo_nodes),
      get_subscriber_info = (\<lambda>fn hidden.
         if fn = ''/d'' then
           [chatter, \<lparr>topic_name = ''/rosout'', types = [''rcl_interfaces/Log'']\<rparr>]
         else []),
      get_publisher_info = (\<lambda>fn hidden.
         if fn = ''/a/b'' then [chatter, lonely] else if fn = ''/a/c'' then [chatter] else []),
      get_service_client_info = (\<lambda>fn hidden. []),
      get_service_server_info = (\<lambda>fn hidden.
         [\<lparr>topic_name = fn @ ''/get_parameters'', types = [''rcl_interfaces/GetParameters'']\<rparr>]),
      get_action_client_info = (\<lambda>fn hidden. []),
      get_action_server_info = (\<lambda>fn hidden.
         if fn = ''/d'' then [\<lparr>topic_name = ''/lonely'', types = [''demo/Act'']\<rparr>] else [])\<rparr>"

definition untyped :: discovery where
  "untyped =
     \<lparr>get_node_names = (\<lambda>hidden. demo_nodes),
      get_subscriber_info = (\<lambda>fn hidden.
         if fn = ''/d'' then [\<lparr>topic_name = ''/chatter'', types = []\<rparr>] else []),
      get_publisher_info = (\<lambda>fn hidden.
         if fn = ''/a/b'' then [\<lparr>topic_name = ''/chatter'', types = []\<rparr>] else []),
      get_service_client_info = (\<lambda>fn hidden. []),
      get_service_server_info = (\<lambda>fn hidden. []),
      get_action_client_info = (\<lambda>fn hidden. []),
      get_action_server_info = (\<lambda>fn hidden. [])\<rparr>"

definition demo_args :: args where
  "demo_args =
     \<lparr>arg_all = False, arg_types = True, arg_unconnected = True,
      arg_select = [''topics'', ''services'', ''actions'']\<rparr>"

text \<open>An edge with three sources and one destination, and one with no destination.\<close>

definition demo_edge :: edge where
  "demo_edge =
     \<lparr>topic = \<lparr>topic_name = ''Y'', types = [''std_msgs/String'', ''other/Type'']\<rparr>,
      src = [''p1'', ''p2'', ''p3''], dst = [''s1''], edge_id = ''edge_0'', colour = ''blue''\<rparr>"


section \<open>Splitting and the ignore filter\<close>

lemma split_sep_nonempty: "split_sep c xs \<noteq> []"
  by (induction xs) (auto split: list.splits)

lemma count_split_sep: "length (split_sep c xs) = Suc (length (filter (\<lambda>x. x = c) xs))"
  by (induction xs) (auto split: list.splits)

lemma split_sep_no_sep: "c \<notin> set xs \<Longrightarrow> split_sep c xs = [xs]"
  by (induction xs) auto

text \<open>The last piece of \<open>split_sep\<close> is what follows the last separator, and the whole string
  when there is none.\<close>

lemma last_split_sep: "last (split_sep c xs) = rev (takeWhile (\<lambda>x. x \<noteq> c) (rev xs))"
proof (induction xs)
  case Nil
  show ?case by simp
next
  case (Cons x xs)
  show ?case
  proof (cases "x = c")
    case True
    then show ?thesis
      using Cons split_sep_nonempty [of c xs] by (simp add: takeWhile_append)
  next
    case False
    note xc = this
    show ?thesis
    proof (cases "c \<in> set xs")
      case True
      then have "1 < length (split_sep c xs)"
        by (auto simp: count_split_sep filter_empty_conv)
      then obtain w v ws where "split_sep c xs = w # v # ws"
        by (cases "split_sep c xs"; cases "tl (split_sep c xs)") auto
      then show ?thesis
        using Cons xc True by (auto simp: takeWhile_append)
    next
      case False
      then show ?thesis
        using xc by (simp add: split_sep_no_sep takeWhile_append)
    qed
  qed
qed

section \<open>The connections of an edge\<close>

lemma edge_label_ok:
  "arg_types a \<longrightarrow> types (topic e) \<noteq> [] \<Longrightarrow> edge_label a e = Inr (connection_label a e)"
  by (auto simp: edge_label_def connection_label_def Let_def split: list.splits)

lemma render_dsts_ok:
  "edge_label a e = Inr l \<Longrightarrow>
   render_dsts a e s ts dw =
     Inr (dw @ map (\<lambda>t. Edge_call s t l (colour e) (colour e) (length (src e))) ts)"
  by (induction ts arbitrary: dw) auto

lemma render_srcs_ok:
  "edge_label a e = Inr l \<Longrightarrow>
   render_srcs a e ss dw =
     Inr (dw @ map (\<lambda>(s, t). Edge_call s t l (colour e) (colour e) (length (src e)))
            (List.product ss (dst e)))"
  by (induction ss arbitrary: dw) (auto simp: render_dsts_ok comp_def)


lemma render_edge_ok:
  "arg_types a \<longrightarrow> types (topic e) \<noteq> [] \<Longrightarrow> render_edge a e dw = Inr (dw @ connections a e)"
  by (simp add: render_edge_def connections_def render_srcs_ok edge_label_ok)


lemma render_dsts_fail:
  "edge_label a e = Inl err \<Longrightarrow> ts \<noteq> [] \<Longrightarrow> render_dsts a e s ts dw = Inl err"
  by (cases ts) auto


lemma render_edge_fail:
  "arg_types a \<Longrightarrow> types (topic e) = [] \<Longrightarrow> src e \<noteq> [] \<Longrightarrow> dst e \<noteq> [] \<Longrightarrow>
   render_edge a e dw = Inl IndexError"
  by (cases "src e") (auto simp: render_edge_def render_dsts_fail edge_label_def)


section \<open>Aggregation\<close>

text \<open>The six loops of the loop body are one fold over the supplied records.\<close>

lemma foldl_tag:
  "foldl add_tagged st (tag n ro rs) = add_records (category_colour ro) (role_side ro) (node_id n) rs st"
  by (simp add: tag_def add_records_def foldl_map add_tagged_def)

lemma node_edges_supplied: "node_edges d a st n = foldl add_tagged st (supplied d a n)"
  by (simp add: node_edges_def supplied_def foldl_tag Let_def)

lemma aggregate_records: "aggregate d a ns c = foldl add_tagged ([], c) (records d a ns)"
proof -
  have "foldl (node_edges d a) st ns = foldl add_tagged st (records d a ns)" for st
    by (induction ns arbitrary: st) (simp_all add: records_def node_edges_supplied)
  then show ?thesis by (simp add: aggregate_def)
qed

subsection \<open>The dictionary operations\<close>

lemma map_of_append_at:
  "map_of (append_at sd k x es) k' =
     (if k' = k then map_option (append_side sd x) (map_of es k') else map_of es k')"
  by (induction es) (auto simp: append_at_def)

lemma keys_append_at: "map fst (append_at sd k x es) = map fst es"
  by (induction es) (auto simp: append_at_def)

lemma in_keys: "k \<in> fst ` set es \<longleftrightarrow> map_of es k \<noteq> None"
  by (induction es) auto

lemma map_of_setdefault:
  "map_of (setdefault es k v) k' =
     (case map_of es k' of Some e \<Rightarrow> Some e | None \<Rightarrow> if k' = k then Some v else None)"
  by (auto simp: setdefault_def in_keys map_add_def split: option.splits)

lemma keys_setdefault:
  "map fst (setdefault es k v) = (if k \<in> set (map fst es) then map fst es else map fst es @ [k])"
  by (simp add: setdefault_def)

lemma setdefault_has_key: "k \<in> fst ` set (setdefault es k v)"
  by (simp add: setdefault_def)

subsection \<open>One record\<close>

lemma add_record_ignored: "ignore (topic_name r) \<Longrightarrow> add_record col sd nid st r = st"
  by (cases st) (simp add: add_record_def)

lemma add_record_counter:
  "snd (add_record col sd nid st r) = (if ignore (topic_name r) then snd st else Suc (snd st))"
  by (cases st) (simp add: add_record_def get_id_def)

lemma add_record_map_of:
  "map_of (fst (add_record col sd nid st r)) k =
     (if \<not> ignore (topic_name r) \<and> topic_name r = k then
        Some (append_side sd nid
          (case map_of (fst st) k of
             Some e \<Rightarrow> e
           | None \<Rightarrow>
               \<lparr>topic = r, src = [], dst = [], edge_id = ''edge_'' @ str_nat (snd st), colour = col\<rparr>))
      else map_of (fst st) k)"
  by (cases st)
    (simp add: add_record_def get_id_def map_of_append_at map_of_setdefault split: option.splits)

lemma add_record_keys:
  "map fst (fst (add_record col sd nid st r)) =
     (if ignore (topic_name r) \<or> topic_name r \<in> set (map fst (fst st)) then map fst (fst st)
      else map fst (fst st) @ [topic_name r])"
  by (cases st) (simp add: add_record_def get_id_def keys_append_at keys_setdefault)

lemma add_record_frame:
  assumes "map_of es k = Some e0"
  shows "\<exists>e1. map_of (fst (add_record col sd nid (es, c) r)) k = Some e1
     \<and> topic e1 = topic e0 \<and> edge_id e1 = edge_id e0 \<and> colour e1 = colour e0
     \<and> (e1 = e0 \<or> e1 = e0\<lparr>src := src e0 @ [nid]\<rparr> \<or> e1 = e0\<lparr>dst := dst e0 @ [nid]\<rparr>)"
  using assms by (cases sd) (auto simp: add_record_map_of append_side_def)

lemma add_tagged_counter:
  "snd (add_tagged st x) = (if counted x then Suc (snd st) else snd st)"
  by (cases x) (simp add: add_tagged_def counted_def add_record_counter)

lemma add_tagged_side_ids:
  "side_ids sd (fst (add_tagged st x)) k =
     side_ids sd (fst st) k @ (if counted x \<and> named k x \<and> on_side sd x then [fst x] else [])"
  by (cases x; cases sd)
    (auto simp: add_tagged_def side_ids_def add_record_map_of counted_def named_def on_side_def
      append_side_def split: option.splits side.splits)

lemma add_tagged_keys:
  "set (map fst (fst (add_tagged st x))) =
     set (map fst (fst st)) \<union> (if counted x then {topic_name (snd (snd x))} else {})"
  by (cases x) (auto simp: add_tagged_def add_record_keys counted_def)

lemma add_tagged_distinct:
  "distinct (map fst (fst st)) \<Longrightarrow> distinct (map fst (fst (add_tagged st x)))"
  by (cases x) (auto simp: add_tagged_def add_record_keys)

lemma seed_append_side: "seed (append_side sd x e) = seed e"
  by (cases sd) (simp_all add: append_side_def seed_def)

lemma add_tagged_frame:
  "map_of (fst st) k = Some e \<Longrightarrow>
   \<exists>e'. map_of (fst (add_tagged st x)) k = Some e' \<and> seed e' = seed e"
  by (cases x) (auto simp: add_tagged_def add_record_map_of seed_append_side)

lemma add_tagged_absent:
  "map_of (fst st) k = None \<Longrightarrow> \<not> (counted x \<and> named k x) \<Longrightarrow>
   map_of (fst (add_tagged st x)) k = None"
  by (cases x) (auto simp: add_tagged_def add_record_map_of counted_def named_def)

subsection \<open>All records\<close>

lemma foldl_counter:
  "snd (foldl add_tagged st xs) = snd st + length (filter counted xs)"
  by (induction xs arbitrary: st) (simp_all add: add_tagged_counter)

lemma foldl_side_ids:
  "side_ids sd (fst (foldl add_tagged st xs)) k =
     side_ids sd (fst st) k @ map fst (filter (\<lambda>x. counted x \<and> named k x \<and> on_side sd x) xs)"
  by (induction xs arbitrary: st) (simp_all add: add_tagged_side_ids)

lemma foldl_distinct:
  "distinct (map fst (fst st)) \<Longrightarrow> distinct (map fst (fst (foldl add_tagged st xs)))"
  by (induction xs arbitrary: st) (simp_all add: add_tagged_distinct)

lemma foldl_keys:
  "set (map fst (fst (foldl add_tagged st xs))) =
     set (map fst (fst st)) \<union> (\<lambda>x. topic_name (snd (snd x))) ` set (filter counted xs)"
proof (induction xs arbitrary: st)
  case Nil
  show ?case by simp
next
  case (Cons x xs)
  show ?case
    unfolding foldl_Cons Cons.IH add_tagged_keys by auto
qed

lemma foldl_frame:
  "map_of (fst st) k = Some e \<Longrightarrow>
   \<exists>e'. map_of (fst (foldl add_tagged st xs)) k = Some e' \<and> seed e' = seed e"
proof (induction xs arbitrary: st e)
  case Nil
  then show ?case by simp
next
  case (Cons x xs)
  obtain e1 where e1: "map_of (fst (add_tagged st x)) k = Some e1" "seed e1 = seed e"
    using add_tagged_frame [OF Cons.prems, of x] by auto
  show ?case using Cons.IH [OF e1(1)] e1(2) by simp
qed

lemma foldl_absent:
  "map_of (fst st) k = None \<Longrightarrow> \<forall>x \<in> set xs. \<not> (counted x \<and> named k x) \<Longrightarrow>
   map_of (fst (foldl add_tagged st xs)) k = None"
  by (induction xs arbitrary: st) (simp_all add: add_tagged_absent)

lemma foldl_first:
  assumes "map_of (fst st) k = None"
    and "\<forall>x \<in> set pre. \<not> (counted x \<and> named k x)"
    and "\<not> ignore (topic_name r)" and "topic_name r = k"
  shows "\<exists>e. map_of (fst (foldl add_tagged st (pre @ (nid, ro, r) # post))) k = Some e \<and>
     seed e = (r, ''edge_'' @ str_nat (snd st + length (filter counted pre)), category_colour ro)"
proof -
  define st1 where "st1 = foldl add_tagged st pre"
  define st2 where "st2 = add_tagged st1 (nid, ro, r)"
  have none: "map_of (fst st1) k = None"
    unfolding st1_def by (rule foldl_absent [OF assms(1,2)])
  have c1: "snd st1 = snd st + length (filter counted pre)"
    unfolding st1_def by (rule foldl_counter)
  have "map_of (fst st2) k =
      Some (append_side (role_side ro) nid
        \<lparr>topic = r, src = [], dst = [], edge_id = ''edge_'' @ str_nat (snd st1),
           colour = category_colour ro\<rparr>)"
    unfolding st2_def using none assms(3,4) by (simp add: add_tagged_def add_record_map_of)
  then obtain e2 where e2: "map_of (fst st2) k = Some e2"
      "seed e2 = (r, ''edge_'' @ str_nat (snd st1), category_colour ro)"
    by (simp add: seed_append_side) (simp add: seed_def)
  obtain e where "map_of (fst (foldl add_tagged st2 post)) k = Some e" "seed e = seed e2"
    using foldl_frame [OF e2(1), of post] by auto
  then show ?thesis using e2(2) c1 by (simp add: st1_def st2_def)
qed

lemma role_side_outgoing: "(role_side ro = Src) = outgoing ro"
  by (cases ro) simp_all

lemma role_side_incoming: "(role_side ro = Dst) = incoming ro"
  by (cases ro) simp_all

lemma outgoing_records_eq:
  "outgoing_records d a ns k = filter (\<lambda>x. counted x \<and> named k x \<and> on_side Src x) (records d a ns)"
  unfolding outgoing_records_def
  by (rule filter_cong) (auto simp: counted_def named_def on_side_def role_side_outgoing)

lemma incoming_records_eq:
  "incoming_records d a ns k = filter (\<lambda>x. counted x \<and> named k x \<and> on_side Dst x) (records d a ns)"
  unfolding incoming_records_def
  by (rule filter_cong) (auto simp: counted_def named_def on_side_def role_side_incoming)

lemma side_ids_Nil: "side_ids sd [] k = []"
  by (simp add: side_ids_def)

lemma aggregate_side_ids:
  "side_ids Src (fst (aggregate d a ns c)) k = map fst (outgoing_records d a ns k)"
  "side_ids Dst (fst (aggregate d a ns c)) k = map fst (incoming_records d a ns k)"
  by (simp_all add: aggregate_records foldl_side_ids side_ids_Nil outgoing_records_eq
      incoming_records_eq)

lemma aggregate_absent:
  assumes "map_of (fst (aggregate d a ns c)) k = None"
  shows "outgoing_records d a ns k = [] \<and> incoming_records d a ns k = []"
proof -
  have "k \<notin> set (map fst (fst (aggregate d a ns c)))"
    using assms by (simp add: in_keys)
  then have "\<forall>x \<in> set (records d a ns). counted x \<longrightarrow> topic_name (snd (snd x)) \<noteq> k"
    unfolding aggregate_records foldl_keys by auto
  then have "\<forall>x \<in> set (records d a ns). \<not> (counted x \<and> named k x)"
    by (auto simp: named_def)
  then show ?thesis
    by (auto simp: outgoing_records_eq incoming_records_eq filter_empty_conv)
qed

subsection \<open>The records behind the edges\<close>

lemma topic_append_side: "topic (append_side sd x e) = topic e"
  by (cases sd) (simp_all add: append_side_def)

lemma topics_append_at: "topic ` snd ` set (append_at sd k x es) = topic ` snd ` set es"
  by (induction es) (auto simp: append_at_def topic_append_side)

lemma topics_setdefault:
  "topic ` snd ` set (setdefault es k v) \<subseteq> insert (topic v) (topic ` snd ` set es)"
  by (auto simp: setdefault_def)

lemma topics_add_record:
  "topic ` snd ` set (fst (add_record col sd nid st r)) \<subseteq> insert r (topic ` snd ` set (fst st))"
proof (cases st)
  case (Pair es c)
  show ?thesis
  proof (cases "ignore (topic_name r)")
    case True
    then show ?thesis by (auto simp: add_record_ignored)
  next
    case False
    then have "fst (add_record col sd nid st r) =
        append_at sd (topic_name r) nid
          (setdefault es (topic_name r)
             \<lparr>topic = r, src = [], dst = [], edge_id = ''edge_'' @ str_nat c, colour = col\<rparr>)"
      using Pair by (simp add: add_record_def get_id_def)
    then show ?thesis
      using topics_setdefault [of es "topic_name r"
          "\<lparr>topic = r, src = [], dst = [], edge_id = ''edge_'' @ str_nat c, colour = col\<rparr>"] Pair
      by (simp add: topics_append_at)
  qed
qed

lemma add_tagged_typed:
  assumes "\<forall>e \<in> snd ` set (fst st). P (topic e)" and "P (snd (snd x))"
  shows "\<forall>e \<in> snd ` set (fst (add_tagged st x)). P (topic e)"
proof
  fix e
  assume "e \<in> snd ` set (fst (add_tagged st x))"
  then have "topic e \<in> topic ` snd ` set (fst (add_tagged st x))" by blast
  then have "topic e \<in> insert (snd (snd x)) (topic ` snd ` set (fst st))"
    using topics_add_record [of "category_colour (fst (snd x))" "role_side (fst (snd x))" "fst x" st "snd (snd x)"]
    by (auto simp: add_tagged_def split_beta)
  then show "P (topic e)" using assms by auto
qed

lemma foldl_typed:
  "\<forall>e \<in> snd ` set (fst st). P (topic e) \<Longrightarrow> \<forall>x \<in> set xs. P (snd (snd x)) \<Longrightarrow>
   \<forall>e \<in> snd ` set (fst (foldl add_tagged st xs)). P (topic e)"
proof (induction xs arbitrary: st)
  case Nil
  then show ?case by simp
next
  case (Cons x xs)
  have a: "\<forall>e \<in> snd ` set (fst (add_tagged st x)). P (topic e)"
    using Cons.prems by (intro add_tagged_typed) simp_all
  have b: "\<forall>x \<in> set xs. P (snd (snd x))"
    using Cons.prems(2) by simp
  show ?case using Cons.IH [OF a b] by simp
qed

lemma aggregate_typed:
  "\<forall>x \<in> set (records d a ns). P (snd (snd x)) \<Longrightarrow>
   \<forall>e \<in> snd ` set (fst (aggregate d a ns c)). P (topic e)"
  unfolding aggregate_records by (rule foldl_typed) simp_all

section \<open>The legend, the nodes and the unconnected edges\<close>

lemma write_legend_calls: "write_legend dw c = (dw @ legend_calls c, c + 3)"
  by (simp add: write_legend_def get_id_def legend_calls_def)

lemma foldl_upd:
  "foldl (\<lambda>g ns. g(ns \<mapsto> F ns)) g0 nss k = (if k \<in> set nss then Some (F k) else g0 k)"
  by (induction nss arbitrary: g0) auto

lemma grouped_node_lookup:
  "grouped_node nodes nss ns =
     (if ns \<in> set nss then Some (filter (\<lambda>n. namespace n = ns) nodes) else None)"
proof -
  have "filter (\<lambda>n. ns = namespace n) nodes = filter (\<lambda>n. namespace n = ns) nodes"
    by (rule filter_cong) auto
  then show ?thesis by (simp add: grouped_node_def foldl_upd)
qed

lemma write_nodes_blocks:
  "\<forall>ns \<in> set nss. g ns = Some (filter (\<lambda>n. namespace n = ns) nodes) \<Longrightarrow>
   write_nodes g nss dw c =
     Inr (dw @ namespace_blocks c nodes nss, c + length (filter (\<lambda>ns. ns \<noteq> []) nss))"
  by (induction nss arbitrary: dw c) (auto simp: get_id_def cluster_block_def)

lemma write_nodes_grouped:
  "write_nodes (grouped_node nodes nss) nss dw c =
     Inr (dw @ namespace_blocks c nodes nss, c + length (filter (\<lambda>ns. ns \<noteq> []) nss))"
  by (rule write_nodes_blocks) (simp add: grouped_node_lookup)

lemma opens_cluster_entries: "filter (opens_cluster ns) (map node_entry ms) = []"
  by (induction ms) (simp_all add: node_entry_def)

lemma count_list_distinct: "distinct xs \<Longrightarrow> x \<in> set xs \<Longrightarrow> count_list xs x = 1"
  by (induction xs) auto

lemma count_cluster_blocks:
  "ns \<noteq> [] \<Longrightarrow>
   length (filter (opens_cluster ns) (namespace_blocks c nodes nss)) = count_list nss ns"
  by (induction nss arbitrary: c) (auto simp: cluster_block_def opens_cluster_entries)

lemma set_iteration_Nil: "set_iteration it \<Longrightarrow> it [] = []"
  by (metis set_iteration_def set_empty empty_set)

lemma resolve_edge_off: "\<not> arg_unconnected a \<Longrightarrow> resolve_edge a e dw c = (e, dw, c)"
  by (simp add: resolve_edge_def)

lemma resolve_edge_on:
  "arg_unconnected a \<Longrightarrow>
   resolve_edge a e dw c =
     (e\<lparr>src := (if src e = [] then [''blank_r_'' @ str_nat c] else src e),
        dst := (if dst e = [] then [''blank_w_'' @ str_nat (if src e = [] then Suc c else c)]
                else dst e)\<rparr>,
      dw @ (if src e = [] then [Node_call (''blank_r_'' @ str_nat c) None (Some ''invis'')] else [])
         @ (if dst e = [] then
              [Node_call (''blank_w_'' @ str_nat (if src e = [] then Suc c else c)) None
                 (Some ''invis'')]
            else []),
      (if src e = [] then Suc c else c) + (if dst e = [] then 1 else 0))"
  by (simp add: resolve_edge_def get_id_def)

lemma resolve_edge_topic: "topic (fst (resolve_edge a e dw c)) = topic e"
  by (cases "arg_unconnected a") (simp_all add: resolve_edge_on resolve_edge_off)

lemma resolve_edge_colour: "colour (fst (resolve_edge a e dw c)) = colour e"
  by (cases "arg_unconnected a") (simp_all add: resolve_edge_on resolve_edge_off)

lemma write_edges_typed:
  "\<forall>e \<in> set es. arg_types a \<longrightarrow> types (topic e) \<noteq> [] \<Longrightarrow>
   \<exists>dw' c'. write_edges a es dw c = Inr (dw', c')"
proof (induction es arbitrary: dw c)
  case Nil
  show ?case by simp
next
  case (Cons e es)
  obtain e1 dw1 c1 where r: "resolve_edge a e dw c = (e1, dw1, c1)"
    by (cases "resolve_edge a e dw c")
  have "topic e1 = topic e" using resolve_edge_topic [of a e dw c] r by simp
  then have "arg_types a \<longrightarrow> types (topic e1) \<noteq> []" using Cons.prems by simp
  then have "render_edge a e1 dw1 = Inr (dw1 @ connections a e1)" by (rule render_edge_ok)
  then show ?case using Cons.IH [of "dw1 @ connections a e1" c1] Cons.prems r by simp
qed

section \<open>The pass as a whole\<close>

lemma main_unfold:
  "main it d a c =
     (case write_edges a (map snd (fst (aggregate d a (get_node_names d (arg_all a))
              (c + 3 + length (filter (\<lambda>ns. ns \<noteq> []) (it (map namespace (get_node_names d (arg_all a)))))))))
            ([Begin_graph ''LR'' True] @ legend_calls c
              @ namespace_blocks (c + 3) (get_node_names d (arg_all a))
                  (it (map namespace (get_node_names d (arg_all a)))))
            (snd (aggregate d a (get_node_names d (arg_all a))
              (c + 3 + length (filter (\<lambda>ns. ns \<noteq> []) (it (map namespace (get_node_names d (arg_all a))))))))
      of Inl err \<Rightarrow> Inl err
       | Inr (dw3, c4) \<Rightarrow> Inr (dw3 @ [End_graph], c4))"
  by (simp add: main_def Let_def write_legend_calls write_nodes_grouped split_beta)

lemma aggregate_Nil: "aggregate d a [] c = ([], c)"
  by (simp add: aggregate_def)

lemma main_empty:
  "set_iteration it \<Longrightarrow> get_node_names d (arg_all a) = [] \<Longrightarrow>
   main it d a c = Inr ([Begin_graph ''LR'' True] @ legend_calls c @ [End_graph], c + 3)"
  by (simp add: main_unfold set_iteration_Nil aggregate_Nil)

lemma main_typed:
  assumes "\<forall>x \<in> set (records d a (get_node_names d (arg_all a))). types (snd (snd x)) \<noteq> []"
  shows "\<exists>doc c'. main it d a c = Inr (doc, c')"
proof -
  let ?c = "c + 3 + length (filter (\<lambda>ns. ns \<noteq> []) (it (map namespace (get_node_names d (arg_all a)))))"
  let ?es = "map snd (fst (aggregate d a (get_node_names d (arg_all a)) ?c))"
  have "\<forall>e \<in> snd ` set (fst (aggregate d a (get_node_names d (arg_all a)) ?c)). types (topic e) \<noteq> []"
    using assms by (rule aggregate_typed)
  then have "\<forall>e \<in> set ?es. arg_types a \<longrightarrow> types (topic e) \<noteq> []" by simp
  from write_edges_typed [OF this]
  obtain dw' c' where
    "write_edges a ?es
       ([Begin_graph ''LR'' True] @ legend_calls c
         @ namespace_blocks (c + 3) (get_node_names d (arg_all a))
             (it (map namespace (get_node_names d (arg_all a)))))
       (snd (aggregate d a (get_node_names d (arg_all a)) ?c)) = Inr (dw', c')"
    by blast
  then show ?thesis unfolding main_unfold by simp
qed

section \<open>Two runs of the pass\<close>































section \<open>The example snapshot, evaluated\<close>

lemma demo_records:
  "records demo demo_args demo_nodes =
     [(''n1'', Publisher, chatter), (''n1'', Publisher, lonely),
      (''n1'', Service_server,
         \<lparr>topic_name = ''/a/b/get_parameters'', types = [''rcl_interfaces/GetParameters'']\<rparr>),
      (''n2'', Publisher, chatter),
      (''n2'', Service_server,
         \<lparr>topic_name = ''/a/c/get_parameters'', types = [''rcl_interfaces/GetParameters'']\<rparr>),
      (''n3'', Subscriber, chatter),
      (''n3'', Subscriber, \<lparr>topic_name = ''/rosout'', types = [''rcl_interfaces/Log'']\<rparr>),
      (''n3'', Service_server,
         \<lparr>topic_name = ''/d/get_parameters'', types = [''rcl_interfaces/GetParameters'']\<rparr>),
      (''n3'', Action_server, \<lparr>topic_name = ''/lonely'', types = [''demo/Act'']\<rparr>)]"
  by (simp add: records_def supplied_def tag_def demo_def demo_args_def demo_nodes_def)

lemma ignore_chatter: "\<not> ignore ''/chatter''" "\<not> ignore ''/lonely''"
  by (simp_all add: ignore_def ignore_list_def)

lemma ignore_demo:
  "ignore ''/rosout''" "ignore ''/a/b/get_parameters''" "ignore ''/a/c/get_parameters''"
  "ignore ''/d/get_parameters''"
  by (simp_all add: ignore_def ignore_list_def)

lemma demo_lonely_edge:
  "map_of (fst (aggregate demo demo_args demo_nodes 0)) ''/lonely'' =
     Some \<lparr>topic = lonely, src = [''n1''], dst = [''n3''], edge_id = ''edge_1'', colour = ''blue''\<rparr>"
  by code_simp


lemma demo_typed:
  "\<forall>(nid, ro, r) \<in> set (records demo demo_args (get_node_names demo (arg_all demo_args))).
     types r \<noteq> []"
proof -
  have "get_node_names demo (arg_all demo_args) = demo_nodes" by (simp add: demo_def)
  then show ?thesis by (simp add: demo_records chatter_def lonely_def)
qed

section \<open>The claims\<close>

text \<open>Claim C1. For every snapshot, node list and channel name \<open>k\<close>: after aggregation either
  the dictionary holds an edge for \<open>k\<close> whose source list is the node identifiers of the
  non-ignored outgoing-role records (publisher, service client, action client) supplied for
  \<open>k\<close>, one per record, in order and with duplicates kept, and whose destination list is the
  same for the incoming-role records (subscriber, service server, action server), so that
  the lengths are the numbers of those records; or there is no edge for \<open>k\<close> and no such
  record was supplied.\<close>

theorem aggregate_counts:
  "(\<exists>e. map_of (fst (aggregate d a ns c)) k = Some e
        \<and> src e = map fst (outgoing_records d a ns k)
        \<and> dst e = map fst (incoming_records d a ns k)
        \<and> length (src e) = length (outgoing_records d a ns k)
        \<and> length (dst e) = length (incoming_records d a ns k))
   \<or> (map_of (fst (aggregate d a ns c)) k = None
        \<and> outgoing_records d a ns k = [] \<and> incoming_records d a ns k = [])"
proof (cases "map_of (fst (aggregate d a ns c)) k")
  case None
  then show ?thesis using aggregate_absent [of d a ns c k] by simp
next
  case (Some e)
  have "src e = map fst (outgoing_records d a ns k)"
    using aggregate_side_ids(1) [of d a ns c k] Some by (simp add: side_ids_def)
  moreover have "dst e = map fst (incoming_records d a ns k)"
    using aggregate_side_ids(2) [of d a ns c k] Some by (simp add: side_ids_def)
  ultimately show ?thesis using Some by simp
qed

text \<open>In the example, \<open>/chatter\<close> has two publishers and one subscriber.\<close>

theorem aggregate_counts_witness:
  "\<exists>e. map_of (fst (aggregate demo demo_args demo_nodes 0)) ''/chatter'' = Some e
     \<and> src e = [''n1'', ''n2''] \<and> dst e = [''n3'']
     \<and> length (outgoing_records demo demo_args demo_nodes ''/chatter'') = 2
     \<and> length (incoming_records demo demo_args demo_nodes ''/chatter'') = 1"
  using aggregate_counts [of demo demo_args demo_nodes 0 "''/chatter''"]
  by (auto simp: outgoing_records_def incoming_records_def demo_records chatter_def lonely_def
      ignore_chatter ignore_demo)

text \<open>Claim C2. For an edge whose record declares at least one type (or when types are not
  shown), the serializer appends exactly one \<open>edge\<close> call per pair of the Cartesian product
  of the source and destination lists; each carries the channel name as label, followed
  by the source count in parentheses if and only if there is more than one source, and by
  the first declared type in brackets when types are shown; colour and font colour are the
  edge's colour and the width is the source count.\<close>

theorem render_edge_cartesian:
  assumes "arg_types a \<longrightarrow> types (topic e) \<noteq> []"
  shows "render_edge a e dw =
     Inr (dw @ map (\<lambda>(s, t). Edge_call s t
              (topic_name (topic e)
               @ (if length (src e) > 1 then ''('' @ str_nat (length (src e)) @ '')'' else [])
               @ (if arg_types a then '' ['' @ hd (types (topic e)) @ '']'' else []))
              (colour e) (colour e) (length (src e)))
            (List.product (src e) (dst e)))"
  using render_edge_ok [OF assms, of dw] by (simp add: connections_def connection_label_def)

text \<open>The fan-out example: three sources and one destination give three connections, each
  labelled with the count 3 and the first of the two types.\<close>

theorem render_edge_cartesian_witness:
  "arg_types demo_args \<and> types (topic demo_edge) \<noteq> [] \<and>
   render_edge demo_args demo_edge [] =
     Inr [Edge_call ''p1'' ''s1'' ''Y(3) [std_msgs/String]'' ''blue'' ''blue'' 3,
          Edge_call ''p2'' ''s1'' ''Y(3) [std_msgs/String]'' ''blue'' ''blue'' 3,
          Edge_call ''p3'' ''s1'' ''Y(3) [std_msgs/String]'' ''blue'' ''blue'' 3]"
  using render_edge_cartesian [of demo_args demo_edge "[]"]
  by (simp add: demo_args_def demo_edge_def str_nat.simps digit_char_def)



text \<open>Claim C4. A record whose name is in the ignore list, or whose last path segment (what
  follows the last \<open>/\<close>, the whole name when it has none) is in it, leaves the dictionary
  and the allocator as they were, whatever the colour and the side of its loop; and no
  edge of an aggregation is stored under such a name.\<close>

theorem ignored_record_contributes_nothing:
  assumes "topic_name r \<in> ignore_list
     \<or> rev (takeWhile (\<lambda>x. x \<noteq> CHR ''/'') (rev (topic_name r))) \<in> ignore_list"
  shows "add_record col sd nid st r = st
     \<and> topic_name r \<notin> fst ` set (fst (aggregate d a ns c))"
proof -
  have ign: "ignore (topic_name r)"
    using assms by (simp add: ignore_def last_split_sep)
  have "topic_name r \<notin> set (map fst (fst (aggregate d a ns c)))"
    unfolding aggregate_records foldl_keys using ign by (auto simp: counted_def split_beta)
  then show ?thesis using ign by (simp add: add_record_ignored)
qed

text \<open>The service \<open>/d/get_parameters\<close> of the example.\<close>

theorem ignored_record_contributes_nothing_witness:
  "rev (takeWhile (\<lambda>x. x \<noteq> CHR ''/'') (rev ''/d/get_parameters'')) \<in> ignore_list
   \<and> add_record ''orange'' Dst ''n3'' ([], 0)
        \<lparr>topic_name = ''/d/get_parameters'', types = [''rcl_interfaces/GetParameters'']\<rparr> = ([], 0)
   \<and> ''/d/get_parameters'' \<notin> fst ` set (fst (aggregate demo demo_args demo_nodes 0))"
proof -
  have h: "rev (takeWhile (\<lambda>x. x \<noteq> CHR ''/'') (rev ''/d/get_parameters'')) \<in> ignore_list"
    by (simp add: ignore_list_def)
  show ?thesis
    using h ignored_record_contributes_nothing [of
        "\<lparr>topic_name = ''/d/get_parameters'', types = [''rcl_interfaces/GetParameters'']\<rparr>"
        "''orange''" Dst "''n3''" "([], 0)" demo demo_args demo_nodes 0]
    by simp
qed

text \<open>Claim C5. The keys of the dictionary are distinct after an aggregation, and every
  record keeps them distinct. A record that is not ignored and whose name is new adds one
  edge at the end of the dictionary, made of that record, the identifier the allocator
  returns, the colour of its loop and the node on its side, and takes one identifier. A
  record that is not ignored and whose name is already a key adds no key and appends to
  the edge stored there, whatever its colour. The loops use \<open>blue\<close> for both topic roles,
  \<open>orange\<close> for both service roles and \<open>olive\<close> for both action roles.\<close>

theorem one_edge_per_name:
  "distinct (map fst (fst (aggregate d a ns c)))
   \<and> (distinct (map fst es) \<longrightarrow> distinct (map fst (fst (add_record col sd nid (es, c) r))))
   \<and> (\<not> ignore (topic_name r) \<and> topic_name r \<notin> fst ` set es \<longrightarrow>
        add_record col sd nid (es, c) r =
          (es @ [(topic_name r,
                  append_side sd nid
                    \<lparr>topic = r, src = [], dst = [], edge_id = ''edge_'' @ str_nat c, colour = col\<rparr>)],
           Suc c))
   \<and> (\<not> ignore (topic_name r) \<and> topic_name r \<in> fst ` set es \<longrightarrow>
        map fst (fst (add_record col sd nid (es, c) r)) = map fst es
        \<and> map_of (fst (add_record col sd nid (es, c) r)) (topic_name r) =
            map_option (append_side sd nid) (map_of es (topic_name r)))
   \<and> node_edges d a st n =
        foldl (\<lambda>st (nid, ro, r). add_record (category_colour ro) (role_side ro) nid st r) st
          (supplied d a n)"
proof -
  have 1: "distinct (map fst (fst (aggregate d a ns c)))"
    unfolding aggregate_records by (rule foldl_distinct) simp
  have 2: "distinct (map fst (fst (add_record col sd nid (es, c) r)))" if "distinct (map fst es)"
    using that by (auto simp: add_record_keys)
  have 3: "add_record col sd nid (es, c) r =
      (es @ [(topic_name r,
              append_side sd nid
                \<lparr>topic = r, src = [], dst = [], edge_id = ''edge_'' @ str_nat c, colour = col\<rparr>)],
       Suc c)"
    if "\<not> ignore (topic_name r) \<and> topic_name r \<notin> fst ` set es"
  proof -
    have "append_at sd (topic_name r) nid es = es"
      using that unfolding append_at_def by (intro map_idI) force
    then show ?thesis
      using that by (simp add: add_record_def get_id_def setdefault_def append_at_def)
  qed
  have 4: "map fst (fst (add_record col sd nid (es, c) r)) = map fst es
      \<and> map_of (fst (add_record col sd nid (es, c) r)) (topic_name r) =
          map_option (append_side sd nid) (map_of es (topic_name r))"
    if "\<not> ignore (topic_name r) \<and> topic_name r \<in> fst ` set es"
    using that by (auto simp: add_record_keys add_record_map_of in_keys)
  have 5: "node_edges d a st n =
      foldl (\<lambda>st (nid, ro, r). add_record (category_colour ro) (role_side ro) nid st r) st
        (supplied d a n)"
  proof -
    have "add_tagged = (\<lambda>st (nid, ro, r). add_record (category_colour ro) (role_side ro) nid st r)"
      by (intro ext) (simp add: add_tagged_def)
    then show ?thesis using node_edges_supplied [of d a st n] by simp
  qed
  show ?thesis using 1 2 3 4 5 by blast
qed

text \<open>In the example, a publisher record creates the edge of \<open>/lonely\<close>; the action server
  record for the same name reuses it, and the edge stays blue.\<close>

theorem one_edge_per_name_witness:
  "distinct (map fst (fst (aggregate demo demo_args demo_nodes 1)))
   \<and> \<not> ignore (topic_name lonely)
   \<and> add_record ''blue'' Src ''n1'' ([], 1) lonely =
       ([(''/lonely'',
          \<lparr>topic = lonely, src = [''n1''], dst = [], edge_id = ''edge_1'', colour = ''blue''\<rparr>)], 2)
   \<and> ''/lonely'' \<in> fst ` set [(''/lonely'',
          \<lparr>topic = lonely, src = [''n1''], dst = [], edge_id = ''edge_1'', colour = ''blue''\<rparr>)]
   \<and> map fst (fst (add_record ''olive'' Dst ''n3''
         ([(''/lonely'',
            \<lparr>topic = lonely, src = [''n1''], dst = [], edge_id = ''edge_1'', colour = ''blue''\<rparr>)], 4)
         \<lparr>topic_name = ''/lonely'', types = [''demo/Act'']\<rparr>)) = [''/lonely'']
   \<and> map_of (fst (add_record ''olive'' Dst ''n3''
         ([(''/lonely'',
            \<lparr>topic = lonely, src = [''n1''], dst = [], edge_id = ''edge_1'', colour = ''blue''\<rparr>)], 4)
         \<lparr>topic_name = ''/lonely'', types = [''demo/Act'']\<rparr>)) ''/lonely'' =
       Some \<lparr>topic = lonely, src = [''n1''], dst = [''n3''], edge_id = ''edge_1'', colour = ''blue''\<rparr>"
  using one_edge_per_name [where d = demo and a = demo_args and ns = demo_nodes and c = 1
      and es = "[]" and col = "''blue''" and sd = Src and nid = "''n1''" and r = lonely]
    one_edge_per_name [where d = demo and a = demo_args and ns = demo_nodes and c = 4
      and es = "[(''/lonely'',
          \<lparr>topic = lonely, src = [''n1''], dst = [], edge_id = ''edge_1'', colour = ''blue''\<rparr>)]"
      and col = "''olive''" and sd = Dst and nid = "''n3''"
      and r = "\<lparr>topic_name = ''/lonely'', types = [''demo/Act'']\<rparr>"]
  by (simp add: lonely_def ignore_chatter append_side_def str_nat.simps digit_char_def)

text \<open>Claim C6. For an iteration order of the namespace set: the order holds every
  namespace of the node list once; \<open>grouped_node\<close> has exactly those keys and maps each to
  the nodes of that namespace in their input order; and the node loop writes, for each
  namespace in turn, a cluster labelled with it around one entry (identifier and display
  name) per member when it is not empty, and the entries alone when it is the root
  namespace, so that each non-empty namespace opens exactly one cluster.\<close>

theorem namespace_grouping:
  assumes "set_iteration it"
  shows "distinct (it (map namespace nodes))
     \<and> set (it (map namespace nodes)) = namespace ` set nodes
     \<and> dom (grouped_node nodes (it (map namespace nodes))) = namespace ` set nodes
     \<and> (\<forall>ns \<in> namespace ` set nodes.
          grouped_node nodes (it (map namespace nodes)) ns =
            Some (filter (\<lambda>n. namespace n = ns) nodes))
     \<and> write_nodes (grouped_node nodes (it (map namespace nodes))) (it (map namespace nodes)) dw c =
          Inr (dw @ namespace_blocks c nodes (it (map namespace nodes)),
               c + length (filter (\<lambda>ns. ns \<noteq> []) (it (map namespace nodes))))
     \<and> (\<forall>ns \<in> namespace ` set nodes. ns \<noteq> [] \<longrightarrow>
          length (filter (opens_cluster ns)
            (namespace_blocks c nodes (it (map namespace nodes)))) = 1)"
proof -
  let ?nss = "it (map namespace nodes)"
  have d: "distinct ?nss" and s: "set ?nss = namespace ` set nodes"
    using assms by (simp_all add: set_iteration_def)
  have dm: "dom (grouped_node nodes ?nss) = namespace ` set nodes"
    using s by (auto simp: grouped_node_lookup dom_def)
  have g: "\<forall>ns \<in> namespace ` set nodes.
      grouped_node nodes ?nss ns = Some (filter (\<lambda>n. namespace n = ns) nodes)"
    using s by (simp add: grouped_node_lookup)
  have w: "write_nodes (grouped_node nodes ?nss) ?nss dw c =
      Inr (dw @ namespace_blocks c nodes ?nss, c + length (filter (\<lambda>ns. ns \<noteq> []) ?nss))"
    by (rule write_nodes_grouped)
  have one: "\<forall>ns \<in> namespace ` set nodes. ns \<noteq> [] \<longrightarrow>
      length (filter (opens_cluster ns) (namespace_blocks c nodes ?nss)) = 1"
  proof (intro ballI impI)
    fix ns
    assume "ns \<in> namespace ` set nodes" and "ns \<noteq> []"
    then show "length (filter (opens_cluster ns) (namespace_blocks c nodes ?nss)) = 1"
      using d s by (simp add: count_cluster_blocks count_list_distinct)
  qed
  show ?thesis using d s dm g w one by blast
qed

text \<open>The nodes \<open>/a/b\<close>, \<open>/a/c\<close> and \<open>/d\<close>: one cluster \<open>/a\<close> with two entries, and \<open>/d\<close>
  outside it.\<close>

theorem namespace_grouping_witness:
  "set_iteration remdups
   \<and> remdups (map namespace demo_nodes) = [''/a'', []]
   \<and> grouped_node demo_nodes [''/a'', []] ''/a'' = Some [demo_nodes ! 0, demo_nodes ! 1]
   \<and> grouped_node demo_nodes [''/a'', []] [] = Some [demo_nodes ! 2]
   \<and> write_nodes (grouped_node demo_nodes [''/a'', []]) [''/a'', []] [] 3 =
        Inr ([Begin_subgraph ''cluster_3'' ''/a'', Node_call ''n1'' (Some ''b'') None,
              Node_call ''n2'' (Some ''c'') None, End_subgraph,
              Node_call ''n3'' (Some ''d'') None], 4)"
proof -
  have h: "set_iteration remdups" by (simp add: set_iteration_def)
  have r: "remdups (map namespace demo_nodes) = [''/a'', []]" by (simp add: demo_nodes_def)
  show ?thesis
    using h namespace_grouping [OF h, of demo_nodes "[]" 3]
    unfolding r
    by (simp add: demo_nodes_def cluster_block_def node_entry_def get_id_def str_nat.simps
        digit_char_def)
qed



text \<open>Claim C8. When no node is discovered the pass returns a document: the opening of the
  graph, the legend cluster with its two tables and three rows, and the closing of the
  graph, with no node entry, no other cluster and no connection; it takes three
  identifiers.\<close>

theorem empty_discovery_legend_only:
  assumes "set_iteration it" and "get_node_names d (arg_all a) = []"
  shows "main it d a c =
     Inr ([Begin_graph ''LR'' True,
           Begin_subgraph (''cluster_'' @ str_nat c) ''legend'',
           Write (legend_key (''key_'' @ str_nat (c + 1))),
           Write (legend_key2 (''key2_'' @ str_nat (c + 2))),
           Write (legend_row (''key_'' @ str_nat (c + 1)) (''key2_'' @ str_nat (c + 2)) ''i1'' ''blue''),
           Write (legend_row (''key_'' @ str_nat (c + 1)) (''key2_'' @ str_nat (c + 2)) ''i2'' ''orange''),
           Write (legend_row (''key_'' @ str_nat (c + 1)) (''key2_'' @ str_nat (c + 2)) ''i3'' ''olive''),
           End_subgraph,
           End_graph], c + 3)"
  using main_empty [OF assms, of c] by (simp add: legend_calls_def)

text \<open>The example with an empty node list, from counter 0.\<close>

theorem empty_discovery_legend_only_witness:
  "set_iteration remdups
   \<and> get_node_names (demo\<lparr>get_node_names := (\<lambda>hidden. [])\<rparr>) (arg_all demo_args) = []
   \<and> main remdups (demo\<lparr>get_node_names := (\<lambda>hidden. [])\<rparr>) demo_args 0 =
        Inr ([Begin_graph ''LR'' True,
              Begin_subgraph ''cluster_0'' ''legend'',
              Write (legend_key ''key_1''),
              Write (legend_key2 ''key2_2''),
              Write (''key_1:i1:e -> key2_2:i1:w [color=blue]'' @ [CHR 0x0A]),
              Write (''key_1:i2:e -> key2_2:i2:w [color=orange]'' @ [CHR 0x0A]),
              Write (''key_1:i3:e -> key2_2:i3:w [color=olive]'' @ [CHR 0x0A]),
              End_subgraph,
              End_graph], 3)"
proof -
  have h: "set_iteration remdups" by (simp add: set_iteration_def)
  have n: "get_node_names (demo\<lparr>get_node_names := (\<lambda>hidden. [])\<rparr>) (arg_all demo_args) = []"
    by simp
  show ?thesis
    using h n empty_discovery_legend_only [OF h n, of 0]
    by (simp add: legend_row_def str_nat.simps digit_char_def)
qed

text \<open>Claim C9. Let a record that is not ignored be the first of its name among the
  records of a pass. After aggregation the edge stored under its name has this record as
  its topic, the identifier allocated when it was processed (the counter then is the
  start value plus the number of non-ignored records before it) and the colour of its
  role's category; the connections rendered for the edge have that colour and, with types
  shown, the first type of that record. And a record of any colour and side, applied to a
  dictionary that has an edge under some name, leaves the topic, the identifier and the
  colour of that edge as they are and at most appends its node to the source or the
  destination list.\<close>

theorem first_record_seeds_edge:
  assumes "records d a ns = pre @ (nid, ro, r) # post"
    and "\<not> ignore (topic_name r)"
    and "\<forall>(nid', ro', r') \<in> set pre. topic_name r' \<noteq> topic_name r"
  shows "(\<exists>e. map_of (fst (aggregate d a ns c)) (topic_name r) = Some e
       \<and> topic e = r
       \<and> edge_id e = ''edge_'' @ str_nat (c + length (filter (\<lambda>(nid', ro', r'). \<not> ignore (topic_name r')) pre))
       \<and> colour e = category_colour ro
       \<and> ((arg_types a \<longrightarrow> types r \<noteq> []) \<longrightarrow>
            render_edge a (fst (resolve_edge a e dw c')) dw' =
              Inr (dw' @ map (\<lambda>(s, t). Edge_call s t
                     (topic_name r
                      @ (if length (src (fst (resolve_edge a e dw c'))) > 1
                         then ''('' @ str_nat (length (src (fst (resolve_edge a e dw c')))) @ '')''
                         else [])
                      @ (if arg_types a then '' ['' @ hd (types r) @ '']'' else []))
                     (category_colour ro) (category_colour ro)
                     (length (src (fst (resolve_edge a e dw c')))))
                   (List.product (src (fst (resolve_edge a e dw c')))
                      (dst (fst (resolve_edge a e dw c')))))))
     \<and> (map_of es k = Some e0 \<longrightarrow>
          (\<exists>e1. map_of (fst (add_record col sd nid1 (es, c0) r1)) k = Some e1
             \<and> topic e1 = topic e0 \<and> edge_id e1 = edge_id e0 \<and> colour e1 = colour e0
             \<and> (e1 = e0 \<or> e1 = e0\<lparr>src := src e0 @ [nid1]\<rparr> \<or> e1 = e0\<lparr>dst := dst e0 @ [nid1]\<rparr>)))"
proof -
  have cnt: "counted = (\<lambda>(nid', ro', r'). \<not> ignore (topic_name r'))"
    by (intro ext) (simp add: counted_def)
  have absent: "\<forall>x \<in> set pre. \<not> (counted x \<and> named (topic_name r) x)"
    using assms(3) by (auto simp: named_def)
  obtain e where e: "map_of (fst (aggregate d a ns c)) (topic_name r) = Some e"
      "seed e = (r, ''edge_'' @ str_nat (c + length (filter counted pre)), category_colour ro)"
    using foldl_first [of "([], c)" "topic_name r" pre r nid ro post, OF _ absent assms(2)]
    unfolding aggregate_records assms(1) by auto
  then have s: "topic e = r" "colour e = category_colour ro"
      "edge_id e = ''edge_'' @ str_nat (c + length (filter (\<lambda>(nid', ro', r'). \<not> ignore (topic_name r')) pre))"
    by (simp_all add: seed_def cnt)
  define e' where "e' = fst (resolve_edge a e dw c')"
  have t: "topic e' = r" "colour e' = category_colour ro"
    using s by (simp_all add: e'_def resolve_edge_topic resolve_edge_colour)
  have rend: "render_edge a e' dw' =
      Inr (dw' @ map (\<lambda>(s, t). Edge_call s t
             (topic_name r
              @ (if length (src e') > 1 then ''('' @ str_nat (length (src e')) @ '')'' else [])
              @ (if arg_types a then '' ['' @ hd (types r) @ '']'' else []))
             (category_colour ro) (category_colour ro) (length (src e')))
           (List.product (src e') (dst e')))"
    if "arg_types a \<longrightarrow> types r \<noteq> []"
  proof -
    have "arg_types a \<longrightarrow> types (topic e') \<noteq> []" using that t by simp
    from render_edge_ok [OF this, of dw'] show ?thesis
      by (simp add: connections_def connection_label_def t)
  qed
  show ?thesis
    using e(1) s rend add_record_frame [of es k e0 col sd nid1 c0 r1] unfolding e'_def by blast
qed

text \<open>In the example the first record named \<open>/lonely\<close> is the publisher record of \<open>/a/b\<close>,
  the second record of the pass; the action server record that follows changes neither
  the colour nor the type shown.\<close>

theorem first_record_seeds_edge_witness:
  "records demo demo_args demo_nodes =
     [(''n1'', Publisher, chatter)] @ (''n1'', Publisher, lonely) # drop 2 (records demo demo_args demo_nodes)
   \<and> \<not> ignore (topic_name lonely)
   \<and> topic_name chatter \<noteq> topic_name lonely
   \<and> (''n3'', Action_server, \<lparr>topic_name = ''/lonely'', types = [''demo/Act'']\<rparr>)
        \<in> set (drop 2 (records demo demo_args demo_nodes))
   \<and> (\<exists>e. map_of (fst (aggregate demo demo_args demo_nodes 0)) ''/lonely'' = Some e
         \<and> topic e = lonely \<and> edge_id e = ''edge_1'' \<and> colour e = ''blue''
         \<and> render_edge demo_args (fst (resolve_edge demo_args e [] 9)) [] =
             Inr [Edge_call ''n1'' ''n3'' ''/lonely [std_msgs/Empty]'' ''blue'' ''blue'' 1])"
proof -
  have 1: "records demo demo_args demo_nodes =
      [(''n1'', Publisher, chatter)] @ (''n1'', Publisher, lonely) # drop 2 (records demo demo_args demo_nodes)"
    by (simp add: demo_records)
  have 2: "\<not> ignore (topic_name lonely)" by (simp add: lonely_def ignore_chatter)
  have 3: "\<forall>(nid', ro', r') \<in> set [(''n1'', Publisher, chatter)]. topic_name r' \<noteq> topic_name lonely"
    by (simp add: chatter_def lonely_def)
  have 4: "(''n3'', Action_server, \<lparr>topic_name = ''/lonely'', types = [''demo/Act'']\<rparr>)
      \<in> set (drop 2 (records demo demo_args demo_nodes))"
    by (simp add: demo_records)
  let ?e = "\<lparr>topic = lonely, src = [''n1''], dst = [''n3''], edge_id = ''edge_1'', colour = ''blue''\<rparr>"
  from first_record_seeds_edge [where c = 0 and a = demo_args and dw = "[]" and c' = 9
      and dw' = "[]" and es = "[]" and k = "[]", OF 1 2 3]
  obtain e where e: "map_of (fst (aggregate demo demo_args demo_nodes 0)) (topic_name lonely) = Some e"
    and s: "topic e = lonely" "colour e = category_colour Publisher"
      "edge_id e = ''edge_'' @ str_nat (0 + length (filter (\<lambda>(nid', ro', r'). \<not> ignore (topic_name r'))
         [(''n1'', Publisher, chatter)]))"
    and r: "(arg_types demo_args \<longrightarrow> types lonely \<noteq> []) \<longrightarrow>
      render_edge demo_args (fst (resolve_edge demo_args e [] 9)) [] =
        Inr ([] @ map (\<lambda>(s, t). Edge_call s t
               (topic_name lonely
                @ (if length (src (fst (resolve_edge demo_args e [] 9))) > 1
                   then ''('' @ str_nat (length (src (fst (resolve_edge demo_args e [] 9)))) @ '')''
                   else [])
                @ (if arg_types demo_args then '' ['' @ hd (types lonely) @ '']'' else []))
               (category_colour Publisher) (category_colour Publisher)
               (length (src (fst (resolve_edge demo_args e [] 9)))))
             (List.product (src (fst (resolve_edge demo_args e [] 9)))
                (dst (fst (resolve_edge demo_args e [] 9)))))"
    by blast
  have ee: "e = ?e" using e demo_lonely_edge by (simp add: lonely_def)
  have i: "edge_id e = ''edge_1''"
    using s(3) by (simp add: chatter_def ignore_chatter str_nat.simps digit_char_def)
  have rr: "render_edge demo_args (fst (resolve_edge demo_args e [] 9)) [] =
      Inr [Edge_call ''n1'' ''n3'' ''/lonely [std_msgs/Empty]'' ''blue'' ''blue'' 1]"
    using r unfolding ee by (simp add: resolve_edge_def demo_args_def lonely_def)
  show ?thesis
    using 1 2 4 e s(1,2) i rr by (simp add: chatter_def lonely_def)
qed

text \<open>Claim C10. With types shown, rendering an edge that has a source and a destination
  reads the first element of its record's type list: the result is \<open>IndexError\<close> when the
  list is empty and the connections labelled with that element otherwise. When every
  supplied record declares a type the pass returns a document. And in the snapshot
  \<open>untyped\<close>, where a record declares none, the pass ends with \<open>IndexError\<close>.\<close>

theorem type_index_safety:
  "(arg_types a \<and> src e \<noteq> [] \<and> dst e \<noteq> [] \<longrightarrow>
      render_edge a e dw =
        (case types (topic e) of
           [] \<Rightarrow> Inl IndexError
         | ty # tys \<Rightarrow>
             Inr (dw @ map (\<lambda>(s, t). Edge_call s t
                    (topic_name (topic e)
                     @ (if length (src e) > 1 then ''('' @ str_nat (length (src e)) @ '')'' else [])
                     @ '' ['' @ ty @ '']'')
                    (colour e) (colour e) (length (src e)))
                  (List.product (src e) (dst e)))))
   \<and> ((\<forall>(nid, ro, r) \<in> set (records d a (get_node_names d (arg_all a))). types r \<noteq> []) \<longrightarrow>
        (\<exists>doc c'. main it d a c = Inr (doc, c')))
   \<and> (\<exists>(nid, ro, r) \<in> set (records untyped demo_args (get_node_names untyped (arg_all demo_args))).
         types r = [])
   \<and> main remdups untyped demo_args 0 = Inl IndexError"
proof -
  have 1: "render_edge a e dw =
      (case types (topic e) of
         [] \<Rightarrow> Inl IndexError
       | ty # tys \<Rightarrow>
           Inr (dw @ map (\<lambda>(s, t). Edge_call s t
                  (topic_name (topic e)
                   @ (if length (src e) > 1 then ''('' @ str_nat (length (src e)) @ '')'' else [])
                   @ '' ['' @ ty @ '']'')
                  (colour e) (colour e) (length (src e)))
                (List.product (src e) (dst e))))"
    if "arg_types a \<and> src e \<noteq> [] \<and> dst e \<noteq> []"
  proof (cases "types (topic e)")
    case Nil
    then show ?thesis using that by (simp add: render_edge_fail)
  next
    case (Cons ty tys)
    then have "arg_types a \<longrightarrow> types (topic e) \<noteq> []" by simp
    from render_edge_ok [OF this, of dw] show ?thesis
      using Cons that by (simp add: connections_def connection_label_def)
  qed
  have 2: "\<exists>doc c'. main it d a c = Inr (doc, c')"
    if "\<forall>(nid, ro, r) \<in> set (records d a (get_node_names d (arg_all a))). types r \<noteq> []"
  proof -
    have "\<forall>x \<in> set (records d a (get_node_names d (arg_all a))). types (snd (snd x)) \<noteq> []"
      using that by auto
    then show ?thesis by (rule main_typed)
  qed
  have 3: "\<exists>(nid, ro, r) \<in> set (records untyped demo_args (get_node_names untyped (arg_all demo_args))).
      types r = []"
    by (simp add: records_def supplied_def tag_def untyped_def demo_args_def demo_nodes_def)
  have 4: "main remdups untyped demo_args 0 = Inl IndexError"
    by code_simp
  show ?thesis using 1 2 3 4 by blast
qed

text \<open>The fan-out edge with and without its types, and the example snapshot, whose records
  all declare a type.\<close>

theorem type_index_safety_witness:
  "arg_types demo_args \<and> src demo_edge \<noteq> [] \<and> dst demo_edge \<noteq> []
   \<and> render_edge demo_args demo_edge [] =
       Inr [Edge_call ''p1'' ''s1'' ''Y(3) [std_msgs/String]'' ''blue'' ''blue'' 3,
            Edge_call ''p2'' ''s1'' ''Y(3) [std_msgs/String]'' ''blue'' ''blue'' 3,
            Edge_call ''p3'' ''s1'' ''Y(3) [std_msgs/String]'' ''blue'' ''blue'' 3]
   \<and> render_edge demo_args (demo_edge\<lparr>topic := \<lparr>topic_name = ''Y'', types = []\<rparr>\<rparr>) [] = Inl IndexError
   \<and> list_all (\<lambda>(nid, ro, r). types r \<noteq> [])
       (records demo demo_args (get_node_names demo (arg_all demo_args)))
   \<and> (\<exists>doc c'. main remdups demo demo_args 0 = Inr (doc, c'))"
  using type_index_safety [where a = demo_args and e = demo_edge and dw = "[]" and d = demo
      and it = remdups and c = 0]
    type_index_safety [where a = demo_args
      and e = "demo_edge\<lparr>topic := \<lparr>topic_name = ''Y'', types = []\<rparr>\<rparr>" and dw = "[]"
      and d = demo and it = remdups and c = 0]
    demo_typed
  by (simp add: demo_args_def demo_edge_def str_nat.simps digit_char_def list_all_iff)

end
